theory Spec2Isabelle
  imports Complex_Main "HOL-Library.Word"
begin

unbundle bit_operations_syntax

section \<open>JavaScript strings\<close>

text \<open>
  A JavaScript string is a sequence of UTF-16 code units. \<open>js\<close> writes an ASCII
  literal of the source as such a sequence.
\<close>

type_synonym jsstring = "16 word list"

definition js :: "string \<Rightarrow> jsstring" where
  "js s = map of_char s"

text \<open>
  \<open>String.prototype.trim\<close> removes the ECMAScript WhiteSpace and LineTerminator code
  points from both ends: TAB, LF, VT, FF, CR, SP, NBSP, U+1680, U+2000..U+200A,
  U+2028, U+2029, U+202F, U+205F, U+3000 and U+FEFF.
\<close>

definition isWhiteSpace :: "16 word \<Rightarrow> bool" where
  "isWhiteSpace c =
     (c \<in> {0x09, 0x0A, 0x0B, 0x0C, 0x0D, 0x20, 0xA0, 0x1680, 0x2028, 0x2029,
            0x202F, 0x205F, 0x3000, 0xFEFF}
      \<or> (0x2000 \<le> c \<and> c \<le> 0x200A))"

definition trim :: "jsstring \<Rightarrow> jsstring" where
  "trim s = rev (dropWhile isWhiteSpace (rev (dropWhile isWhiteSpace s)))"

text \<open>A string in a condition (\<open>if (s)\<close>, \<open>!s\<close>) is truthy unless it is empty.\<close>

definition truthy :: "jsstring \<Rightarrow> bool" where
  "truthy s = (s \<noteq> [])"


section \<open>Exceptions and effects\<close>

datatype exn =
    InvalidStateError
  | RangeError
  | NotSupportedError
  | IndexSizeError
  | Error jsstring

datatype logarg = LStr jsstring | LExn exn

text \<open>
  What a handler of the speech hook does to the outside: requests to a recognizer
  object (identified by the order of its construction), the two callbacks of the
  hook's props, and the console.
\<close>

datatype action =
    ResStart nat
  | ResStop nat
  | OnError jsstring
  | OnResult jsstring bool
  | ConsoleWarn jsstring logarg
  | ConsoleError jsstring logarg


section \<open>The speech session: \<open>useSpeechRecognition\<close>\<close>

text \<open>The fields the hook sets on a recognizer object it constructs.\<close>

record recognizer =
  continuous :: bool
  interimResults :: bool
  lang :: jsstring

text \<open>
  The hook's state: the React state \<open>isListening\<close>, the two refs, and the recognizer
  objects constructed so far (object \<open>n\<close> is the \<open>n\<close>-th constructed).
\<close>

record session =
  isListening :: bool
  recognitionRef :: "nat option"
  shouldBeListening :: bool
  resources :: "recognizer list"

definition initial_session :: session where
  "initial_session =
     \<lparr>isListening = False, recognitionRef = None, shouldBeListening = False, resources = []\<rparr>"

text \<open>
  The outcome of running one handler or call: the state after it, what it did, and the
  exception that left it uncaught, if any.
\<close>

record outcome =
  post :: session
  effects :: "action list"
  thrown :: "exn option"

text \<open>
  \<open>setupRecognition\<close>. The first argument tells whether the host has
  \<open>window.SpeechRecognition || window.webkitSpeechRecognition\<close>.
\<close>

definition setupRecognition :: "bool \<Rightarrow> jsstring \<Rightarrow> session \<Rightarrow> outcome" where
  "setupRecognition capable lng s =
     (if \<not> capable then
        \<lparr>post = s,
         effects = [OnError (js ''Speech recognition not supported in this browser.'')],
         thrown = None\<rparr>
      else
        \<lparr>post = s\<lparr>resources := resources s @
                     [\<lparr>continuous = True, interimResults = True, lang = lng\<rparr>],
                   recognitionRef := Some (length (resources s))\<rparr>,
         effects = [],
         thrown = None\<rparr>)"

text \<open>\<open>recognition.onstart\<close>.\<close>

definition onstart :: "session \<Rightarrow> outcome" where
  "onstart s = \<lparr>post = s\<lparr>isListening := True\<rparr>, effects = [], thrown = None\<rparr>"

text \<open>
  \<open>recognition.onend\<close> of recognizer \<open>rid\<close>. The host decides whether the call of
  \<open>recognition.start()\<close> throws: \<open>start_result\<close> is \<open>Some e\<close> when it throws \<open>e\<close>.
  The handler's \<open>try\<close>/\<open>catch\<close> logs the exception and goes on.
\<close>

definition onend :: "nat \<Rightarrow> exn option \<Rightarrow> session \<Rightarrow> outcome" where
  "onend rid start_result s =
     (let s1 = s\<lparr>isListening := False\<rparr> in
      if shouldBeListening s1 then
        (case start_result of
           None \<Rightarrow> \<lparr>post = s1, effects = [ResStart rid], thrown = None\<rparr>
         | Some e \<Rightarrow>
             \<lparr>post = s1,
              effects = [ResStart rid,
                         ConsoleWarn (js ''Could not auto-restart recognition'') (LExn e)],
              thrown = None\<rparr>)
      else \<lparr>post = s1, effects = [], thrown = None\<rparr>)"

text \<open>\<open>recognition.onerror\<close>, with \<open>event.error\<close>.\<close>

definition onerror :: "jsstring \<Rightarrow> session \<Rightarrow> outcome" where
  "onerror err s =
     (if err = js ''no-speech'' \<or> err = js ''audio-capture'' then
        \<lparr>post = s, effects = [ConsoleWarn (js ''Recognition warning:'') (LStr err)],
         thrown = None\<rparr>
      else
        \<lparr>post = s,
         effects = [ConsoleError (js ''Speech Recognition Error:'') (LStr err), OnError err],
         thrown = None\<rparr>)"

text \<open>
  One entry of \<open>event.results\<close>: its \<open>isFinal\<close> flag and the transcript of its first
  alternative, \<open>results[i][0].transcript\<close>.
\<close>

record segment =
  isFinal :: bool
  transcript :: jsstring

text \<open>The \<open>for\<close> loop of \<open>recognition.onresult\<close>, from index \<open>i\<close>.\<close>

function onresult_loop :: "nat \<Rightarrow> segment list \<Rightarrow> jsstring \<Rightarrow> jsstring \<Rightarrow> jsstring \<times> jsstring" where
  "onresult_loop i results interimTranscript finalTranscript =
     (if i < length results then
        (if isFinal (results ! i) then
           onresult_loop (Suc i) results interimTranscript
             (finalTranscript @ transcript (results ! i))
         else
           onresult_loop (Suc i) results
             (interimTranscript @ transcript (results ! i)) finalTranscript)
      else (interimTranscript, finalTranscript))"
  by pat_completeness auto
termination
  by (relation "measure (\<lambda>(i, results, _, _). length results - i)") auto

declare onresult_loop.simps [simp del]

text \<open>\<open>recognition.onresult\<close>, with \<open>event.resultIndex\<close> and \<open>event.results\<close>.\<close>

definition onresult :: "nat \<Rightarrow> segment list \<Rightarrow> session \<Rightarrow> outcome" where
  "onresult resultIndex results s =
     (case onresult_loop resultIndex results [] [] of
        (interimTranscript, finalTranscript) \<Rightarrow>
          if truthy finalTranscript then
            \<lparr>post = s, effects = [OnResult (trim finalTranscript) True], thrown = None\<rparr>
          else if truthy interimTranscript then
            \<lparr>post = s, effects = [OnResult (trim interimTranscript) False], thrown = None\<rparr>
          else \<lparr>post = s, effects = [], thrown = None\<rparr>)"

text \<open>
  The cleanup of the effect that runs \<open>setupRecognition\<close>. The source calls the
  recognizer's \<open>stop()\<close> outside any \<open>try\<close>; the Web Speech API defines no exception
  for it, so the call is a request and nothing more.
\<close>

definition cleanup :: "session \<Rightarrow> outcome" where
  "cleanup s =
     (let s1 = s\<lparr>shouldBeListening := False\<rparr> in
      case recognitionRef s1 of
        Some r \<Rightarrow> \<lparr>post = s1, effects = [ResStop r], thrown = None\<rparr>
      | None \<Rightarrow> \<lparr>post = s1, effects = [], thrown = None\<rparr>)"

text \<open>
  \<open>startListening\<close>. As in \<open>onend\<close>, \<open>start_result\<close> is what the recognizer's
  \<open>start()\<close> does if it is called; the empty \<open>catch\<close> drops the exception.
\<close>

definition startListening :: "exn option \<Rightarrow> session \<Rightarrow> outcome" where
  "startListening start_result s =
     (let s1 = s\<lparr>shouldBeListening := True\<rparr> in
      case recognitionRef s1 of
        Some r \<Rightarrow>
          (case start_result of
             None \<Rightarrow> \<lparr>post = s1, effects = [ResStart r], thrown = None\<rparr>
           | Some e \<Rightarrow> \<lparr>post = s1, effects = [ResStart r], thrown = None\<rparr>)
      | None \<Rightarrow> \<lparr>post = s1, effects = [], thrown = None\<rparr>)"

text \<open>\<open>stopListening\<close>, with the same call of \<open>stop()\<close>.\<close>

definition stopListening :: "session \<Rightarrow> outcome" where
  "stopListening s =
     (let s1 = s\<lparr>shouldBeListening := False\<rparr> in
      case recognitionRef s1 of
        Some r \<Rightarrow> \<lparr>post = s1, effects = [ResStop r], thrown = None\<rparr>
      | None \<Rightarrow> \<lparr>post = s1, effects = [], thrown = None\<rparr>)"

text \<open>
  Everything that can happen to a session: the caller's two calls, the events of a
  recognizer object, and the effect that builds the recognizer and its cleanup.
\<close>

datatype event =
    CallStartListening "exn option"
  | CallStopListening
  | EvStarted nat
  | EvEnded nat "exn option"
  | EvError nat jsstring
  | EvResult nat nat "segment list"
  | EffectSetup bool jsstring
  | EffectCleanup

fun step :: "event \<Rightarrow> session \<Rightarrow> outcome" where
  "step (CallStartListening start_result) s = startListening start_result s"
| "step CallStopListening s = stopListening s"
| "step (EvStarted rid) s = onstart s"
| "step (EvEnded rid start_result) s = onend rid start_result s"
| "step (EvError rid err) s = onerror err s"
| "step (EvResult rid resultIndex results) s = onresult resultIndex results s"
| "step (EffectSetup capable lng) s = setupRecognition capable lng s"
| "step EffectCleanup s = cleanup s"

text \<open>
  A sequence of events, each handled to its end before the next one (the host's event
  loop). An exception that leaves one handler does not stop the later events.
\<close>

fun run :: "event list \<Rightarrow> session \<Rightarrow> outcome" where
  "run [] s = \<lparr>post = s, effects = [], thrown = None\<rparr>"
| "run (e # es) s =
     (let r = step e s; r' = run es (post r) in
      \<lparr>post = post r',
       effects = effects r @ effects r',
       thrown = (case thrown r of Some x \<Rightarrow> Some x | None \<Rightarrow> thrown r')\<rparr>)"

text \<open>The recognizers a list of actions asks to start, in order.\<close>

fun restart_requests :: "action list \<Rightarrow> nat list" where
  "restart_requests [] = []"
| "restart_requests (ResStart r # as) = r # restart_requests as"
| "restart_requests (_ # as) = restart_requests as"

fun is_CallStartListening :: "event \<Rightarrow> bool" where
  "is_CallStartListening (CallStartListening _) = True"
| "is_CallStartListening _ = False"

text \<open>The error messages a list of actions passes to \<open>onError\<close>, in order.\<close>

fun on_error_calls :: "action list \<Rightarrow> jsstring list" where
  "on_error_calls [] = []"
| "on_error_calls (OnError m # as) = m # on_error_calls as"
| "on_error_calls (_ # as) = on_error_calls as"

text \<open>The requests a list of actions makes to recognizer objects.\<close>

fun resource_requests :: "action list \<Rightarrow> action list" where
  "resource_requests [] = []"
| "resource_requests (ResStart r # as) = ResStart r # resource_requests as"
| "resource_requests (ResStop r # as) = ResStop r # resource_requests as"
| "resource_requests (_ # as) = resource_requests as"

text \<open>The caller's own calls, \<open>startListening\<close> and \<open>stopListening\<close>.\<close>

fun is_call :: "event \<Rightarrow> bool" where
  "is_call (CallStartListening _) = True"
| "is_call CallStopListening = True"
| "is_call _ = False"

text \<open>
  What the two accumulators of \<open>onresult\<close> are said to hold: the transcripts of the
  segments from the batch's start index on, flagged final (resp. not final), joined in
  the order of arrival.
\<close>

definition final_accumulator :: "nat \<Rightarrow> segment list \<Rightarrow> jsstring" where
  "final_accumulator resultIndex results =
     concat (map transcript (filter isFinal (drop resultIndex results)))"

definition interim_accumulator :: "nat \<Rightarrow> segment list \<Rightarrow> jsstring" where
  "interim_accumulator resultIndex results =
     concat (map transcript (filter (\<lambda>g. \<not> isFinal g) (drop resultIndex results)))"


section \<open>The translation gateway: \<open>translateMedicalText\<close>\<close>

text \<open>
  \<open>getAIClient\<close> builds the client from \<open>process.env.API_KEY || ''\<close>. The constructor
  only stores its options.
\<close>

record ai_client =
  apiKey :: jsstring

definition getAIClient :: "jsstring option \<Rightarrow> ai_client" where
  "getAIClient env_API_KEY =
     \<lparr>apiKey = (case env_API_KEY of
                  Some k \<Rightarrow> if truthy k then k else []
                | None \<Rightarrow> [])\<rparr>"

text \<open>
  The request \<open>translateMedicalText\<close> sends. The system instruction is a fixed template
  filled with the two language tags, so the request carries the tags.
\<close>

record request =
  req_apiKey :: jsstring
  req_model :: jsstring
  req_text :: jsstring
  req_sourceLang :: jsstring
  req_targetLang :: jsstring
  req_temperature :: rat

text \<open>
  The response as the code reads it. Its \<open>text\<close> member is a function (whose call
  throws or returns a string or nothing), a string, or anything else; the candidates
  path is read with optional chaining, each link of which may be absent.
\<close>

datatype text_member =
    TextMethod "exn + jsstring option"
  | TextProp jsstring
  | TextOther

datatype part = Part (part_text: "jsstring option")
datatype content = Content (parts: "part list option")
datatype candidate = Candidate (content: "content option")

record response =
  text_member :: text_member
  candidates :: "candidate list option"

datatype api_result = Rejects exn | Resolves response

text \<open>The operator \<open>??\<close>.\<close>

definition nullish :: "'a option \<Rightarrow> 'a option \<Rightarrow> 'a option" where
  "nullish a b = (case a of Some x \<Rightarrow> Some x | None \<Rightarrow> b)"

text \<open>\<open>r?.candidates?.[0]?.content?.parts?.[0]?.text\<close>.\<close>

definition viaCandidates :: "response \<Rightarrow> jsstring option" where
  "viaCandidates r =
     (case candidates r of
        None \<Rightarrow> None
      | Some [] \<Rightarrow> None
      | Some (c # _) \<Rightarrow>
          (case content c of
             None \<Rightarrow> None
           | Some ct \<Rightarrow>
               (case parts ct of
                  None \<Rightarrow> None
                | Some [] \<Rightarrow> None
                | Some (p # _) \<Rightarrow> part_text p)))"

definition translate_request :: "ai_client \<Rightarrow> jsstring \<Rightarrow> jsstring \<Rightarrow> jsstring \<Rightarrow> request" where
  "translate_request ai txt sourceLang targetLang =
     \<lparr>req_apiKey = apiKey ai, req_model = js ''gemini-3-flash-preview'', req_text = txt,
      req_sourceLang = sourceLang, req_targetLang = targetLang, req_temperature = 0\<rparr>"

text \<open>
  \<open>translateMedicalText\<close>. The host's \<open>generateContent\<close> answers the request by
  rejecting or by resolving to a response. Everything after \<open>getAIClient()\<close> is inside
  the \<open>try\<close>, also the call of \<open>r.text()\<close>; the \<open>catch\<close> returns the fixed message.
  The \<open>console.error\<close> line of the \<open>catch\<close> does not affect the result and is left out.
  The result is \<open>Inr\<close> when the promise resolves and \<open>Inl\<close> when it rejects.
\<close>

definition translateMedicalText ::
  "jsstring option \<Rightarrow> (request \<Rightarrow> api_result) \<Rightarrow> jsstring \<Rightarrow> jsstring \<Rightarrow> jsstring \<Rightarrow> exn + jsstring" where
  "translateMedicalText env_API_KEY generateContent txt sourceLang targetLang =
     (let ai = getAIClient env_API_KEY in
      case generateContent (translate_request ai txt sourceLang targetLang) of
        Rejects e \<Rightarrow> Inr (js ''Error: Unable to connect to translation service.'')
      | Resolves r \<Rightarrow>
          (case (case text_member r of
                   TextMethod (Inl e) \<Rightarrow> Inl e
                 | TextMethod (Inr v) \<Rightarrow> Inr v
                 | _ \<Rightarrow> Inr None) of
             Inl e \<Rightarrow> Inr (js ''Error: Unable to connect to translation service.'')
           | Inr viaMethod \<Rightarrow>
               (let viaProp = (case text_member r of TextProp t \<Rightarrow> Some t | _ \<Rightarrow> None) in
                case nullish viaMethod (nullish viaProp (viaCandidates r)) of
                  Some t \<Rightarrow> Inr t
                | None \<Rightarrow> Inr (js ''Translation failed.''))))"


section \<open>The conversation controller: \<open>App\<close>\<close>

datatype speaker = Provider | Patient

record TranscriptEntry =
  entry_id :: jsstring
  originalText :: jsstring
  translatedText :: jsstring
  timestamp :: nat
  entry_sourceLang :: jsstring
  entry_targetLang :: jsstring
  entry_speaker :: speaker

text \<open>The React state of \<open>App\<close> that \<open>handleTranslation\<close> and \<open>onSpeechResult\<close> use.\<close>

record app =
  sourceLang :: jsstring
  targetLang :: jsstring
  transcripts :: "TranscriptEntry list"
  interimText :: jsstring
  speaker :: speaker
  error :: "jsstring option"
  isTranslating :: bool

definition initial_app :: app where
  "initial_app =
     \<lparr>sourceLang = js ''en-US'', targetLang = js ''es-ES'', transcripts = [],
      interimText = [], speaker = Provider, error = None, isTranslating = False\<rparr>"

text \<open>
  What the host supplies to one run of \<open>handleTranslation\<close>: the API key, the service,
  the value of \<open>crypto.randomUUID()\<close> and the time of \<open>new Date()\<close>.
\<close>

record host =
  env_API_KEY :: "jsstring option"
  generateContent :: "request \<Rightarrow> api_result"
  randomUUID :: jsstring
  now :: nat

text \<open>
  \<open>handleTranslation\<close>, run to its end: the state after all its updates, and the
  requests it sent to the translation service. The entry is appended to the log as it
  is at that moment (\<open>prev => [...prev, newEntry]\<close>); the \<open>finally\<close> block runs on
  both paths.
\<close>

definition handleTranslation :: "host \<Rightarrow> jsstring \<Rightarrow> app \<Rightarrow> app \<times> request list" where
  "handleTranslation h txt s =
     (if \<not> truthy (trim txt) then (s, [])
      else
        let s1 = s\<lparr>isTranslating := True, error := None\<rparr>;
            s2 = (case translateMedicalText (env_API_KEY h) (generateContent h) txt
                         (sourceLang s) (targetLang s) of
                    Inr translated \<Rightarrow>
                      s1\<lparr>transcripts := transcripts s1 @
                           [\<lparr>entry_id = randomUUID h, originalText = txt,
                             translatedText = translated, timestamp = now h,
                             entry_sourceLang = sourceLang s, entry_targetLang = targetLang s,
                             entry_speaker = speaker s\<rparr>]\<rparr>
                  | Inl e \<Rightarrow>
                      s1\<lparr>error := Some (js ''Medical translation service encountered an issue.'')\<rparr>)
        in (s2\<lparr>isTranslating := False, interimText := []\<rparr>,
            [translate_request (getAIClient (env_API_KEY h)) txt (sourceLang s) (targetLang s)]))"

definition onSpeechResult :: "host \<Rightarrow> jsstring \<Rightarrow> bool \<Rightarrow> app \<Rightarrow> app \<times> request list" where
  "onSpeechResult h txt is_final s =
     (if is_final then handleTranslation h txt s else (s\<lparr>interimText := txt\<rparr>, []))"

definition swapLanguages :: "app \<Rightarrow> app" where
  "swapLanguages s = s\<lparr>sourceLang := targetLang s, targetLang := sourceLang s\<rparr>"

text \<open>A host whose translation service fails with a transport fault.\<close>

definition faulty_host :: host where
  "faulty_host =
     \<lparr>env_API_KEY = Some (js ''key''),
      generateContent = (\<lambda>_. Rejects (Error (js ''Failed to fetch''))),
      randomUUID = js ''00000000-0000-4000-8000-000000000001'',
      now = 1700000000000\<rparr>"


section \<open>Audio decoding: the PCM fallback of \<open>decodePcmAudio\<close>\<close>

text \<open>
  A value stored in a \<open>Float32Array\<close>. Every value the fallback computes from an
  element of the \<open>Int16Array\<close> is \<open>k / 32768\<close> with \<open>- 32768 \<le> k \<le> 32767\<close>, which
  binary64 and binary32 represent exactly, so the division and the store do not round
  and the value is given as a rational. \<open>NaN\<close> is what \<open>undefined / 32768.0\<close> gives
  when the index is outside the array.
\<close>

datatype sample = NaN | Sample rat

text \<open>
  \<open>new Int16Array(data)\<close>: a view of the bytes as 16-bit elements in the platform's byte
  order (little-endian: low byte first). It throws \<open>RangeError\<close> when the byte length is
  odd.
\<close>

definition le16 :: "8 word \<Rightarrow> 8 word \<Rightarrow> 16 word" where
  "le16 lo hi = push_bit 8 (ucast hi) OR ucast lo"

fun int16_elements :: "8 word list \<Rightarrow> 16 word list" where
  "int16_elements (lo # hi # bs) = le16 lo hi # int16_elements bs"
| "int16_elements _ = []"

definition Int16Array :: "8 word list \<Rightarrow> exn + 16 word list" where
  "Int16Array data =
     (if odd (length data) then Inl RangeError else Inr (int16_elements data))"

text \<open>\<open>dataInt16[k] / 32768.0\<close>.\<close>

definition int16_div_32768 :: "16 word list \<Rightarrow> nat \<Rightarrow> sample" where
  "int16_div_32768 dataInt16 k =
     (if k < length dataInt16 then Sample (of_int (sint (dataInt16 ! k)) / 32768) else NaN)"

text \<open>
  The inner loop, from frame \<open>i\<close>. A write to a typed array outside its length is
  ignored, as \<open>list_update\<close> does.
\<close>

function sample_loop :: "nat \<Rightarrow> nat \<Rightarrow> nat \<Rightarrow> nat \<Rightarrow> 16 word list \<Rightarrow> sample list \<Rightarrow> sample list" where
  "sample_loop i frameCount numChannels channel dataInt16 channelData =
     (if i < frameCount then
        sample_loop (Suc i) frameCount numChannels channel dataInt16
          (channelData[i := int16_div_32768 dataInt16 (i * numChannels + channel)])
      else channelData)"
  by pat_completeness auto
termination
  by (relation "measure (\<lambda>(i, frameCount, _, _, _, _). frameCount - i)") auto

declare sample_loop.simps [simp del]

text \<open>
  The outer loop, from channel \<open>channel\<close>. \<open>buffer.getChannelData(channel)\<close> throws
  \<open>IndexSizeError\<close> when the buffer has no such channel.
\<close>

function channel_loop :: "nat \<Rightarrow> nat \<Rightarrow> nat \<Rightarrow> 16 word list \<Rightarrow> sample list list \<Rightarrow> exn + sample list list" where
  "channel_loop channel numChannels frameCount dataInt16 buffer =
     (if channel < numChannels then
        (if channel < length buffer then
           channel_loop (Suc channel) numChannels frameCount dataInt16
             (buffer[channel := sample_loop 0 frameCount numChannels channel dataInt16
                                  (buffer ! channel)])
         else Inl IndexSizeError)
      else Inr buffer)"
  by pat_completeness auto
termination
  by (relation "measure (\<lambda>(channel, numChannels, _, _, _). numChannels - channel)") auto

declare channel_loop.simps [simp del]

text \<open>
  \<open>ctx.createBuffer\<close>: a buffer of silence, or \<open>NotSupportedError\<close> when the host does
  not support the channel count, the length or the rate. What a host supports is a
  parameter.
\<close>

definition createBuffer :: "(nat \<Rightarrow> nat \<Rightarrow> nat \<Rightarrow> bool) \<Rightarrow> nat \<Rightarrow> nat \<Rightarrow> nat \<Rightarrow> exn + sample list list" where
  "createBuffer supported numberOfChannels len sampleRate =
     (if supported numberOfChannels len sampleRate
      then Inr (replicate numberOfChannels (replicate len (Sample 0)))
      else Inl NotSupportedError)"

text \<open>
  The \<open>catch\<close> block of \<open>decodePcmAudio\<close>. With no channels, the frame count
  \<open>Math.floor(length / 0)\<close> is not a number of frames and \<open>createBuffer\<close> refuses.
\<close>

definition decodePcmAudio_fallback ::
  "(nat \<Rightarrow> nat \<Rightarrow> nat \<Rightarrow> bool) \<Rightarrow> 8 word list \<Rightarrow> nat \<Rightarrow> nat \<Rightarrow> exn + sample list list" where
  "decodePcmAudio_fallback supported data sampleRate numChannels =
     (case Int16Array data of
        Inl e \<Rightarrow> Inl e
      | Inr dataInt16 \<Rightarrow>
          if numChannels = 0 then Inl NotSupportedError
          else
            let frameCount = length dataInt16 div numChannels in
            case createBuffer supported numChannels frameCount sampleRate of
              Inl e \<Rightarrow> Inl e
            | Inr buffer \<Rightarrow> channel_loop 0 numChannels frameCount dataInt16 buffer)"

text \<open>
  \<open>decodePcmAudio\<close>: the first argument is the outcome of the host's
  \<open>decodeAudioData\<close>. The source's defaults are a rate of 24000 and one channel.
\<close>

definition decodePcmAudio ::
  "(exn + sample list list) \<Rightarrow> (nat \<Rightarrow> nat \<Rightarrow> nat \<Rightarrow> bool) \<Rightarrow> 8 word list \<Rightarrow> nat \<Rightarrow> nat \<Rightarrow> exn + sample list list" where
  "decodePcmAudio decodeAudioData supported data sampleRate numChannels =
     (case decodeAudioData of
        Inr audioBuffer \<Rightarrow> Inr audioBuffer
      | Inl _ \<Rightarrow> decodePcmAudio_fallback supported data sampleRate numChannels)"

text \<open>A host that supports 1 to 32 channels, rates from 8000 to 96000 and no empty buffer.\<close>

definition webaudio_supported :: "nat \<Rightarrow> nat \<Rightarrow> nat \<Rightarrow> bool" where
  "webaudio_supported numberOfChannels len sampleRate =
     (1 \<le> numberOfChannels \<and> numberOfChannels \<le> 32 \<and> 1 \<le> len
      \<and> 8000 \<le> sampleRate \<and> sampleRate \<le> 96000)"


section \<open>Properties of the speech session\<close>

subsection \<open>Auxiliary facts\<close>

lemma restart_requests_append:
  "restart_requests (xs @ ys) = restart_requests xs @ restart_requests ys"
  by (induction xs rule: restart_requests.induct) simp_all

lemma on_error_calls_append:
  "on_error_calls (xs @ ys) = on_error_calls xs @ on_error_calls ys"
  by (induction xs rule: on_error_calls.induct) simp_all

lemma resource_requests_append:
  "resource_requests (xs @ ys) = resource_requests xs @ resource_requests ys"
  by (induction xs rule: resource_requests.induct) simp_all

lemma run_append:
  "post (run (xs @ ys) s) = post (run ys (post (run xs s)))"
  "effects (run (xs @ ys) s) = effects (run xs s) @ effects (run ys (post (run xs s)))"
  by (induction xs arbitrary: s) (simp_all add: Let_def)

lemma onresult_post: "post (onresult ri rs s) = s" 
  by (simp add: onresult_def split: prod.splits)

lemma onresult_no_restart: "restart_requests (effects (onresult ri rs s)) = []"
  by (simp add: onresult_def split: prod.splits)

lemma step_not_listening:
  assumes "\<not> is_CallStartListening e" and "\<not> shouldBeListening s"
  shows "\<not> shouldBeListening (post (step e s))"
    and "restart_requests (effects (step e s)) = []"
  using assms
  by (cases e; simp add: stopListening_def onstart_def onend_def onerror_def
        onresult_post onresult_no_restart setupRecognition_def cleanup_def Let_def
        split: option.splits)+

lemma run_not_listening:
  assumes "\<forall>e\<in>set evs. \<not> is_CallStartListening e" and "\<not> shouldBeListening s"
  shows "\<not> shouldBeListening (post (run evs s)) \<and> restart_requests (effects (run evs s)) = []"
  using assms
proof (induction evs arbitrary: s)
  case Nil
  then show ?case by simp
next
  case (Cons e evs)
  from Cons.prems have e: "\<not> is_CallStartListening e" and s: "\<not> shouldBeListening s" by simp_all
  have 1: "\<not> shouldBeListening (post (step e s))" 
    and 2: "restart_requests (effects (step e s)) = []"
    using step_not_listening[OF e s] by simp_all
  from Cons.IH[OF _ 1] Cons.prems(1)
  have "\<not> shouldBeListening (post (run evs (post (step e s)))) \<and>
        restart_requests (effects (run evs (post (step e s)))) = []" by simp
  with 2 show ?case by (simp add: Let_def restart_requests_append)
qed

lemma onresult_loop_eq:
  "onresult_loop i results a b =
     (a @ interim_accumulator i results, b @ final_accumulator i results)"
proof (induction i results a b rule: onresult_loop.induct)
  case (1 i results a b)
  show ?case
  proof (cases "i < length results")
    case True
    then have d: "drop i results = results ! i # drop (Suc i) results"
      by (simp add: Cons_nth_drop_Suc)
    show ?thesis
    proof (cases "isFinal (results ! i)")
      case True
      with 1(1)[OF \<open>i < length results\<close> True] \<open>i < length results\<close> d show ?thesis
        by (subst onresult_loop.simps) (simp add: interim_accumulator_def final_accumulator_def)
    next
      case False
      with 1(2)[OF \<open>i < length results\<close> False] \<open>i < length results\<close> d show ?thesis
        by (subst onresult_loop.simps) (simp add: interim_accumulator_def final_accumulator_def)
    qed
  next
    case False
    then show ?thesis
      by (subst onresult_loop.simps) (simp add: interim_accumulator_def final_accumulator_def)
  qed
qed

lemma onresult_effects:
  "effects (onresult ri rs s) =
     (if final_accumulator ri rs \<noteq> [] then [OnResult (trim (final_accumulator ri rs)) True]
      else if interim_accumulator ri rs \<noteq> [] then
        [OnResult (trim (interim_accumulator ri rs)) False]
      else [])"
  by (simp add: onresult_def onresult_loop_eq truthy_def)

lemma trim_eq_Nil_iff: "trim t = [] \<longleftrightarrow> (\<forall>c\<in>set t. isWhiteSpace c)"
proof
  assume "trim t = []"
  then have all: "\<forall>c\<in>set (dropWhile isWhiteSpace t). isWhiteSpace c"
    by (simp add: trim_def dropWhile_eq_Nil_conv)
  have "dropWhile isWhiteSpace t = []"
  proof (rule ccontr)
    assume ne: "dropWhile isWhiteSpace t \<noteq> []"
    then have "\<not> isWhiteSpace (hd (dropWhile isWhiteSpace t))"
      by (rule hd_dropWhile)
    moreover from ne have "hd (dropWhile isWhiteSpace t) \<in> set (dropWhile isWhiteSpace t)"
      by simp
    ultimately show False using all by blast
  qed
  then show "\<forall>c\<in>set t. isWhiteSpace c"
    by (simp add: dropWhile_eq_Nil_conv)
next
  assume "\<forall>c\<in>set t. isWhiteSpace c"
  then have h: "dropWhile isWhiteSpace t = []"
    by (simp add: dropWhile_eq_Nil_conv)
  show "trim t = []"
    unfolding trim_def h by simp
qed

lemma run_errors:
  "on_error_calls (effects (run (map (\<lambda>(rid, err). EvError rid err) errs) s)) =
     filter (\<lambda>err. err \<noteq> js ''no-speech'' \<and> err \<noteq> js ''audio-capture'') (map snd errs)
   \<and> post (run (map (\<lambda>(rid, err). EvError rid err) errs) s) = s"
proof (induction errs)
  case Nil
  then show ?case by simp
next
  case (Cons p errs)
  obtain rid err where p: "p = (rid, err)" by (cases p)
  have "post (onerror err s) = s" by (simp add: onerror_def)
  moreover have "on_error_calls (effects (onerror err s)) =
      (if err \<noteq> js ''no-speech'' \<and> err \<noteq> js ''audio-capture'' then [err] else [])"
    by (simp add: onerror_def)
  ultimately show ?case using Cons
    by (simp add: p Let_def on_error_calls_append)
qed

lemma step_call_without_recognizer:
  assumes "is_call e" and "recognitionRef s = None"
  shows "recognitionRef (post (step e s)) = None"
    and "resource_requests (effects (step e s)) = []"
    and "thrown (step e s) = None"
  using assms by (cases e; simp add: startListening_def stopListening_def Let_def)+

lemma run_calls_without_recognizer:
  assumes "\<forall>e\<in>set calls. is_call e" and "recognitionRef s = None"
  shows "recognitionRef (post (run calls s)) = None
       \<and> resource_requests (effects (run calls s)) = []
       \<and> thrown (run calls s) = None"
  using assms
proof (induction calls arbitrary: s)
  case Nil
  then show ?case by simp
next
  case (Cons e calls)
  from Cons.prems have e: "is_call e" by simp
  note st = step_call_without_recognizer[OF e Cons.prems(2)]
  from Cons.IH[OF _ st(1)] Cons.prems(1)
  have "recognitionRef (post (run calls (post (step e s)))) = None
       \<and> resource_requests (effects (run calls (post (step e s)))) = []
       \<and> thrown (run calls (post (step e s))) = None" by simp
  with st show ?case by (simp add: Let_def resource_requests_append)
qed

subsection \<open>Restart on "ended"\<close>

text \<open>
  C1. When a recognizer reports "ended" while \<open>shouldBeListening\<close> is true, its
  \<open>onend\<close> handler asks that recognizer to start exactly once, whether or not the call
  throws; an exception thrown by \<open>start()\<close> does not leave the handler, and nothing is
  requested after it. The handler leaves \<open>shouldBeListening\<close> as it was and sets
  \<open>isListening\<close> to false.
\<close>

theorem onend_restarts_exactly_once:
  assumes "shouldBeListening s"
  shows "restart_requests (effects (onend rid start_result s)) = [rid]
       \<and> thrown (onend rid start_result s) = None
       \<and> (\<forall>e. start_result = Some e \<longrightarrow>
            effects (onend rid start_result s) =
              [ResStart rid,
               ConsoleWarn (js ''Could not auto-restart recognition'') (LExn e)])
       \<and> (start_result = None \<longrightarrow> effects (onend rid start_result s) = [ResStart rid])
       \<and> post (onend rid start_result s) = s\<lparr>isListening := False\<rparr>"
  using assms by (cases start_result) (simp_all add: onend_def)

text \<open>An instance: the recognizer ends while listening is wanted, and its restart throws.\<close>

theorem onend_restarts_exactly_once_witness:
  "shouldBeListening
     \<lparr>isListening = True, recognitionRef = Some 0, shouldBeListening = True,
      resources = [\<lparr>continuous = True, interimResults = True, lang = js ''en-US''\<rparr>]\<rparr>
   \<and> restart_requests (effects (onend 0 (Some InvalidStateError)
        \<lparr>isListening = True, recognitionRef = Some 0, shouldBeListening = True,
         resources = [\<lparr>continuous = True, interimResults = True, lang = js ''en-US''\<rparr>]\<rparr>))
      = [0]
   \<and> thrown (onend 0 (Some InvalidStateError)
        \<lparr>isListening = True, recognitionRef = Some 0, shouldBeListening = True,
         resources = [\<lparr>continuous = True, interimResults = True, lang = js ''en-US''\<rparr>]\<rparr>)
      = None"
  using onend_restarts_exactly_once
    [of "\<lparr>isListening = True, recognitionRef = Some 0, shouldBeListening = True,
          resources = [\<lparr>continuous = True, interimResults = True, lang = js ''en-US''\<rparr>]\<rparr>"
        0 "Some InvalidStateError"]
  by simp

text \<open>
  C2. Take any sequence of calls and events that ends with a call of \<open>stopListening\<close>,
  and let any events follow in which the caller does not call \<open>startListening\<close>
  (recognizer events of any kind and number, \<open>stopListening\<close>, the effect and its
  cleanup). Then \<open>shouldBeListening\<close> is false after the stop, and what follows asks
  no recognizer to start. The check is made on the state in which the "ended" event
  is handled: \<open>onend\<close> asks for a restart exactly when \<open>shouldBeListening\<close> is true
  in that state.
\<close>

theorem no_restart_after_stop:
  assumes "\<forall>e\<in>set evs. \<not> is_CallStartListening e"
  shows "\<not> shouldBeListening (post (run (pre @ [CallStopListening]) s))
       \<and> restart_requests (effects (run evs (post (run (pre @ [CallStopListening]) s)))) = []
       \<and> effects (run (pre @ [CallStopListening] @ evs) s) =
           effects (run (pre @ [CallStopListening]) s)
           @ effects (run evs (post (run (pre @ [CallStopListening]) s)))
       \<and> (restart_requests (effects (onend rid start_result s')) \<noteq> []) = shouldBeListening s'"
proof -
  have a: "\<not> shouldBeListening (post (run (pre @ [CallStopListening]) s))"
    by (simp add: run_append Let_def stopListening_def split: option.splits)
  have b: "restart_requests (effects (run evs (post (run (pre @ [CallStopListening]) s)))) = []"
    using run_not_listening[OF assms a] by simp
  have c: "effects (run (pre @ [CallStopListening] @ evs) s) =
           effects (run (pre @ [CallStopListening]) s)
           @ effects (run evs (post (run (pre @ [CallStopListening]) s)))"
    using run_append(2)[of "pre @ [CallStopListening]" evs s] by simp
  have d: "(restart_requests (effects (onend rid start_result s')) \<noteq> []) = shouldBeListening s'"
    by (simp add: onend_def Let_def split: option.splits)
  from a b c d show ?thesis by blast
qed

text \<open>
  An instance: a session is set up, started and stopped; three "ended" events and a
  "no-speech" error follow.
\<close>

theorem no_restart_after_stop_witness:
  "\<not> shouldBeListening (post (run
        ([EffectSetup True (js ''en-US''), CallStartListening None, EvStarted 0]
         @ [CallStopListening]) initial_session))
   \<and> restart_requests (effects (run
        [EvEnded 0 None, EvError 0 (js ''no-speech''), EvEnded 0 None,
         EvEnded 0 (Some InvalidStateError)]
        (post (run ([EffectSetup True (js ''en-US''), CallStartListening None, EvStarted 0]
                    @ [CallStopListening]) initial_session)))) = []"
proof -
  have h: "\<forall>e\<in>set [EvEnded 0 None, EvError 0 (js ''no-speech''), EvEnded 0 None,
              EvEnded 0 (Some InvalidStateError)]. \<not> is_CallStartListening e"
    by simp
  from no_restart_after_stop[OF h,
      of "[EffectSetup True (js ''en-US''), CallStartListening None, EvStarted 0]"
         initial_session] h
  show ?thesis by blast
qed

subsection \<open>Result batches\<close>

text \<open>
  C3 (amended). The loop of \<open>onresult\<close> leaves in its two accumulators the
  transcripts of the segments from the start index on, those flagged final in one and
  the others in the other, each joined in the order of arrival. If the final
  accumulator is not empty, the handler calls \<open>onResult\<close> once, with the trimmed final
  text and \<open>true\<close>, and the interim text of the batch is dropped; in particular a
  batch with final and interim segments whose final text is not empty delivers the
  final text only. If the final accumulator is empty and the interim one is not, it
  calls \<open>onResult\<close> once with the trimmed interim text and \<open>false\<close>. If both are
  empty, as for a batch with no segment from the start index on, there is no callback.
  The handler changes no state and throws nothing.
\<close>

theorem onresult_batch:
  "onresult_loop resultIndex results [] [] =
     (interim_accumulator resultIndex results, final_accumulator resultIndex results)
   \<and> (final_accumulator resultIndex results \<noteq> [] \<longrightarrow>
        effects (onresult resultIndex results s) =
          [OnResult (trim (final_accumulator resultIndex results)) True])
   \<and> (final_accumulator resultIndex results = [] \<and> interim_accumulator resultIndex results \<noteq> [] \<longrightarrow>
        effects (onresult resultIndex results s) =
          [OnResult (trim (interim_accumulator resultIndex results)) False])
   \<and> ((\<exists>g\<in>set (drop resultIndex results). isFinal g)
        \<and> (\<exists>g\<in>set (drop resultIndex results). \<not> isFinal g)
        \<and> final_accumulator resultIndex results \<noteq> [] \<longrightarrow>
        effects (onresult resultIndex results s) =
          [OnResult (trim (final_accumulator resultIndex results)) True])
   \<and> (final_accumulator resultIndex results = [] \<and> interim_accumulator resultIndex results = [] \<longrightarrow>
        effects (onresult resultIndex results s) = [])
   \<and> (drop resultIndex results = [] \<longrightarrow> effects (onresult resultIndex results s) = [])
   \<and> post (onresult resultIndex results s) = s
   \<and> thrown (onresult resultIndex results s) = None"
proof -
  have "drop resultIndex results = [] \<longrightarrow> effects (onresult resultIndex results s) = []"
    by (simp add: onresult_effects final_accumulator_def interim_accumulator_def)
  moreover have "thrown (onresult resultIndex results s) = None"
    by (simp add: onresult_def split: prod.splits)
  ultimately show ?thesis
    by (simp add: onresult_loop_eq onresult_effects onresult_post)
qed

text \<open>
  Instances: a batch with an interim and a final segment after its start index, a batch
  with one interim segment, and a batch whose start index is its end.
\<close>

theorem onresult_batch_witness:
  "(\<exists>g\<in>set (drop 1 [\<lparr>isFinal = True, transcript = js ''old''\<rparr>,
                      \<lparr>isFinal = False, transcript = js ''um ''\<rparr>,
                      \<lparr>isFinal = True, transcript = js '' a fever ''\<rparr>]). isFinal g)
   \<and> (\<exists>g\<in>set (drop 1 [\<lparr>isFinal = True, transcript = js ''old''\<rparr>,
                      \<lparr>isFinal = False, transcript = js ''um ''\<rparr>,
                      \<lparr>isFinal = True, transcript = js '' a fever ''\<rparr>]). \<not> isFinal g)
   \<and> effects (onresult 1 [\<lparr>isFinal = True, transcript = js ''old''\<rparr>,
                          \<lparr>isFinal = False, transcript = js ''um ''\<rparr>,
                          \<lparr>isFinal = True, transcript = js '' a fever ''\<rparr>] initial_session)
       = [OnResult (js ''a fever'') True]
   \<and> effects (onresult 0 [\<lparr>isFinal = False, transcript = js ''the patient has''\<rparr>]
                initial_session)
       = [OnResult (js ''the patient has'') False]
   \<and> effects (onresult 1 [\<lparr>isFinal = False, transcript = js ''the patient has''\<rparr>]
                initial_session) = []"
proof -
  have a: "effects (onresult 1 [\<lparr>isFinal = True, transcript = js ''old''\<rparr>,
                          \<lparr>isFinal = False, transcript = js ''um ''\<rparr>,
                          \<lparr>isFinal = True, transcript = js '' a fever ''\<rparr>] initial_session)
       = [OnResult (js ''a fever'') True]"
    using onresult_batch[of 1 "[\<lparr>isFinal = True, transcript = js ''old''\<rparr>,
                          \<lparr>isFinal = False, transcript = js ''um ''\<rparr>,
                          \<lparr>isFinal = True, transcript = js '' a fever ''\<rparr>]" initial_session]
    by (simp add: final_accumulator_def interim_accumulator_def js_def trim_def isWhiteSpace_def)
  have b: "effects (onresult 0 [\<lparr>isFinal = False, transcript = js ''the patient has''\<rparr>]
                initial_session)
       = [OnResult (js ''the patient has'') False]"
    using onresult_batch[of 0 "[\<lparr>isFinal = False, transcript = js ''the patient has''\<rparr>]"
        initial_session]
    by (simp add: final_accumulator_def interim_accumulator_def js_def trim_def isWhiteSpace_def)
  have c: "effects (onresult 1 [\<lparr>isFinal = False, transcript = js ''the patient has''\<rparr>]
                initial_session) = []"
    using onresult_batch[of 1 "[\<lparr>isFinal = False, transcript = js ''the patient has''\<rparr>]"
        initial_session]
    by simp
  from a b c show ?thesis by simp
qed

text \<open>
  A batch with a final segment and an interim segment in which the final segment's
  transcript is empty: the handler delivers the interim text, not the final text.
\<close>

theorem onresult_batch_counterexample:
  "isFinal \<lparr>isFinal = True, transcript = []\<rparr>
   \<and> \<not> isFinal \<lparr>isFinal = False, transcript = js ''hi''\<rparr>
   \<and> effects (onresult 0 [\<lparr>isFinal = True, transcript = []\<rparr>,
                          \<lparr>isFinal = False, transcript = js ''hi''\<rparr>] initial_session)
       = [OnResult (js ''hi'') False]
   \<and> effects (onresult 0 [\<lparr>isFinal = True, transcript = []\<rparr>,
                          \<lparr>isFinal = False, transcript = js ''hi''\<rparr>] initial_session)
       \<noteq> [OnResult (trim (final_accumulator 0
              [\<lparr>isFinal = True, transcript = []\<rparr>,
               \<lparr>isFinal = False, transcript = js ''hi''\<rparr>])) True]"
  by (simp add: onresult_effects final_accumulator_def interim_accumulator_def js_def
        trim_def isWhiteSpace_def)

text \<open>
  C4 (amended). When a batch makes \<open>onresult\<close> deliver a final text, that text is
  the trimmed concatenation, in the order of arrival, of the batch's final-flagged
  transcripts, and the concatenation itself is not empty. The delivered text is empty
  exactly when the concatenation consists of whitespace only.
\<close>

theorem final_delivery_text:
  assumes "effects (onresult resultIndex results s) = [OnResult t True]"
  shows "t = trim (final_accumulator resultIndex results)
       \<and> final_accumulator resultIndex results \<noteq> []
       \<and> (t = [] \<longleftrightarrow> (\<forall>c\<in>set (final_accumulator resultIndex results). isWhiteSpace c))"
proof -
  from assms have ne: "final_accumulator resultIndex results \<noteq> []"
    by (auto simp: onresult_effects split: if_splits)
  with assms have t: "t = trim (final_accumulator resultIndex results)"
    by (simp add: onresult_effects)
  from ne t show ?thesis by (simp add: trim_eq_Nil_iff)
qed

text \<open>
  An instance: two final segments with blanks around them.
\<close>

theorem final_delivery_text_witness:
  "effects (onresult 0 [\<lparr>isFinal = True, transcript = js '' the patient has''\<rparr>,
                        \<lparr>isFinal = True, transcript = js '' a fever ''\<rparr>] initial_session)
     = [OnResult (js ''the patient has a fever'') True]
   \<and> js ''the patient has a fever'' =
       trim (final_accumulator 0 [\<lparr>isFinal = True, transcript = js '' the patient has''\<rparr>,
                                  \<lparr>isFinal = True, transcript = js '' a fever ''\<rparr>])
   \<and> final_accumulator 0 [\<lparr>isFinal = True, transcript = js '' the patient has''\<rparr>,
                           \<lparr>isFinal = True, transcript = js '' a fever ''\<rparr>] \<noteq> []"
proof -
  have h: "effects (onresult 0 [\<lparr>isFinal = True, transcript = js '' the patient has''\<rparr>,
                        \<lparr>isFinal = True, transcript = js '' a fever ''\<rparr>] initial_session)
     = [OnResult (js ''the patient has a fever'') True]"
    by (simp add: onresult_effects final_accumulator_def js_def trim_def isWhiteSpace_def)
  from final_delivery_text[OF h] h show ?thesis
    by blast
qed

text \<open>
  A batch whose only final segment is one blank: the handler delivers the empty string
  as a final text.
\<close>

theorem final_delivery_text_counterexample:
  "effects (onresult 0 [\<lparr>isFinal = True, transcript = js '' ''\<rparr>] initial_session)
     = [OnResult [] True]"
  by (simp add: onresult_effects final_accumulator_def js_def trim_def isWhiteSpace_def)

subsection \<open>Recognizer errors\<close>

text \<open>
  C5. For the error kinds "no-speech" and "audio-capture" the \<open>onerror\<close> handler only
  writes a console warning. For every other kind it writes a console error and calls
  \<open>onError\<close> once with the identifier it received. It changes no state and throws
  nothing. Over any sequence of error events, \<open>onError\<close> is called once for each
  event of another kind, in order, with that event's identifier, and never for the two
  benign kinds; the state after the sequence is the state before it.
\<close>

theorem onerror_classification:
  "(err = js ''no-speech'' \<or> err = js ''audio-capture'' \<longrightarrow>
      effects (onerror err s) = [ConsoleWarn (js ''Recognition warning:'') (LStr err)])
   \<and> (err \<noteq> js ''no-speech'' \<and> err \<noteq> js ''audio-capture'' \<longrightarrow>
      effects (onerror err s) =
        [ConsoleError (js ''Speech Recognition Error:'') (LStr err), OnError err])
   \<and> post (onerror err s) = s
   \<and> thrown (onerror err s) = None
   \<and> on_error_calls (effects (run (map (\<lambda>(rid, err). EvError rid err) errs) s)) =
       filter (\<lambda>err. err \<noteq> js ''no-speech'' \<and> err \<noteq> js ''audio-capture'') (map snd errs)
   \<and> post (run (map (\<lambda>(rid, err). EvError rid err) errs) s) = s"
  using run_errors[of errs s] by (simp add: onerror_def)

text \<open>
  Instances: "no-speech" alone, "not-allowed" alone, and a sequence with two
  "no-speech" events, one "not-allowed" and one "audio-capture".
\<close>

theorem onerror_classification_witness:
  "effects (onerror (js ''no-speech'') initial_session) =
     [ConsoleWarn (js ''Recognition warning:'') (LStr (js ''no-speech''))]
   \<and> effects (onerror (js ''not-allowed'') initial_session) =
     [ConsoleError (js ''Speech Recognition Error:'') (LStr (js ''not-allowed'')),
      OnError (js ''not-allowed'')]
   \<and> on_error_calls (effects (run
       [EvError 0 (js ''no-speech''), EvError 0 (js ''no-speech''),
        EvError 0 (js ''not-allowed''), EvError 0 (js ''audio-capture'')] initial_session))
     = [js ''not-allowed'']"
proof -
  have a: "effects (onerror (js ''no-speech'') initial_session) =
     [ConsoleWarn (js ''Recognition warning:'') (LStr (js ''no-speech''))]"
    using onerror_classification[of "js ''no-speech''" initial_session "[]"] by simp
  have b: "effects (onerror (js ''not-allowed'') initial_session) =
     [ConsoleError (js ''Speech Recognition Error:'') (LStr (js ''not-allowed'')),
      OnError (js ''not-allowed'')]"
    using onerror_classification[of "js ''not-allowed''" initial_session "[]"]
    by (simp add: js_def)
  have c: "on_error_calls (effects (run
       [EvError 0 (js ''no-speech''), EvError 0 (js ''no-speech''),
        EvError 0 (js ''not-allowed''), EvError 0 (js ''audio-capture'')] initial_session))
     = [js ''not-allowed'']"
    using onerror_classification[of "[]" initial_session
        "[(0, js ''no-speech''), (0, js ''no-speech''), (0, js ''not-allowed''),
          (0, js ''audio-capture'')]"]
    by (simp add: js_def)
  from a b c show ?thesis by blast
qed

subsection \<open>A host without speech recognition\<close>

text \<open>
  C6. On a host without speech recognition, \<open>setupRecognition\<close> of a session that
  has no recognizer calls \<open>onError\<close> with the message "Speech recognition not supported
  in this browser." and leaves the state as it was: no recognizer object is made and
  \<open>recognitionRef\<close> stays empty. Any calls of \<open>startListening\<close> and
  \<open>stopListening\<close> after it make no request to any recognizer, make no recognizer,
  and throw nothing.
\<close>

theorem unsupported_host_is_inert:
  assumes "recognitionRef s = None" and "\<forall>e\<in>set calls. is_call e"
  shows "effects (setupRecognition False lng s) =
           [OnError (js ''Speech recognition not supported in this browser.'')]
       \<and> post (setupRecognition False lng s) = s
       \<and> thrown (setupRecognition False lng s) = None
       \<and> recognitionRef (post (run calls (post (setupRecognition False lng s)))) = None
       \<and> resources (post (run calls (post (setupRecognition False lng s)))) = resources s
       \<and> resource_requests (effects (run calls (post (setupRecognition False lng s)))) = []
       \<and> thrown (run calls (post (setupRecognition False lng s))) = None"
proof -
  have p: "post (setupRecognition False lng s) = s"
    by (simp add: setupRecognition_def)
  have r: "resources (post (run calls s')) = resources s'" if "\<forall>e\<in>set calls. is_call e" for s'
    using that
  proof (induction calls arbitrary: s')
    case Nil
    then show ?case by simp
  next
    case (Cons e calls)
    from Cons.prems have "is_call e" by simp
    then have "resources (post (step e s')) = resources s'"
      by (cases e) (simp_all add: startListening_def stopListening_def Let_def split: option.splits)
    with Cons show ?case by (simp add: Let_def)
  qed
  show ?thesis
    using run_calls_without_recognizer[OF assms(2) assms(1)] r[OF assms(2), of s]
    by (simp add: p) (simp add: setupRecognition_def)
qed

text \<open>
  An instance: the initial session, then start, stop, start.
\<close>

theorem unsupported_host_is_inert_witness:
  "recognitionRef initial_session = None
   \<and> effects (setupRecognition False (js ''en-US'') initial_session) =
        [OnError (js ''Speech recognition not supported in this browser.'')]
   \<and> resource_requests (effects (run [CallStartListening None, CallStopListening,
                                       CallStartListening (Some InvalidStateError)]
        (post (setupRecognition False (js ''en-US'') initial_session)))) = []
   \<and> thrown (run [CallStartListening None, CallStopListening,
                  CallStartListening (Some InvalidStateError)]
        (post (setupRecognition False (js ''en-US'') initial_session))) = None"
proof -
  have h1: "recognitionRef initial_session = None"
    by (simp add: initial_session_def)
  have h2: "\<forall>e\<in>set [CallStartListening None, CallStopListening,
                 CallStartListening (Some InvalidStateError)]. is_call e"
    by simp
  from unsupported_host_is_inert[OF h1 h2, of "js ''en-US''"] h1 h2
  show ?thesis by blast
qed


section \<open>Properties of the translation gateway and the controller\<close>

text \<open>
  C10. \<open>translateMedicalText\<close> resolves to a string for every text, every pair of
  language tags, every API key and every behaviour of the service; it never rejects.
  If the service call rejects, the result is "Error: Unable to connect to translation
  service."; if the service responds and neither the \<open>text\<close> member nor the candidates
  path yields a text, the result is "Translation failed.".
\<close>

theorem translateMedicalText_always_resolves:
  "(\<exists>t. translateMedicalText k gc txt src tgt = Inr t)
   \<and> (\<forall>e. gc (translate_request (getAIClient k) txt src tgt) = Rejects e \<longrightarrow>
         translateMedicalText k gc txt src tgt =
           Inr (js ''Error: Unable to connect to translation service.''))
   \<and> (\<forall>r. gc (translate_request (getAIClient k) txt src tgt) = Resolves r
          \<and> (text_member r = TextOther \<or> text_member r = TextMethod (Inr None))
          \<and> viaCandidates r = None \<longrightarrow>
         translateMedicalText k gc txt src tgt = Inr (js ''Translation failed.''))"
proof (cases "gc (translate_request (getAIClient k) txt src tgt)")
  case (Rejects e)
  then show ?thesis by (simp add: translateMedicalText_def)
next
  case (Resolves r)
  then show ?thesis
    by (auto simp: translateMedicalText_def nullish_def
        split: text_member.splits sum.splits option.splits)
qed

text \<open>
  Instances: a service that rejects, and a response with one candidate without
  content.
\<close>

theorem translateMedicalText_always_resolves_witness:
  "translateMedicalText (Some (js ''key'')) (\<lambda>_. Rejects (Error (js ''Failed to fetch'')))
     (js ''fiebre'') (js ''es-ES'') (js ''en-US'')
     = Inr (js ''Error: Unable to connect to translation service.'')
   \<and> translateMedicalText None
       (\<lambda>_. Resolves \<lparr>text_member = TextOther, candidates = Some [Candidate None]\<rparr>)
       (js ''fiebre'') (js ''es-ES'') (js ''en-US'')
     = Inr (js ''Translation failed.'')"
proof -
  have a: "translateMedicalText (Some (js ''key'')) (\<lambda>_. Rejects (Error (js ''Failed to fetch'')))
     (js ''fiebre'') (js ''es-ES'') (js ''en-US'')
     = Inr (js ''Error: Unable to connect to translation service.'')"
    using translateMedicalText_always_resolves
      [of "Some (js ''key'')" "\<lambda>_. Rejects (Error (js ''Failed to fetch''))"
          "js ''fiebre''" "js ''es-ES''" "js ''en-US''"]
    by simp
  have b: "translateMedicalText None
       (\<lambda>_. Resolves \<lparr>text_member = TextOther, candidates = Some [Candidate None]\<rparr>)
       (js ''fiebre'') (js ''es-ES'') (js ''en-US'')
     = Inr (js ''Translation failed.'')"
    using translateMedicalText_always_resolves
      [of None "\<lambda>_. Resolves \<lparr>text_member = TextOther, candidates = Some [Candidate None]\<rparr>"
          "js ''fiebre''" "js ''es-ES''" "js ''en-US''"]
    by (simp add: viaCandidates_def)
  from a b show ?thesis by simp
qed

text \<open>
  C8. A final result whose text is empty after trimming is ignored: \<open>onSpeechResult\<close>
  and \<open>handleTranslation\<close> leave the whole state as it was, so the translating flag,
  the interim text and the log are unchanged, and no request is sent to the
  translation service.
\<close>

theorem blank_final_ignored:
  assumes "trim txt = []"
  shows "onSpeechResult h txt True s = (s, []) \<and> handleTranslation h txt s = (s, [])"
  using assms by (simp add: onSpeechResult_def handleTranslation_def truthy_def)

text \<open>
  An instance: three blanks, delivered while a translation is marked as running.
\<close>

theorem blank_final_ignored_witness:
  "trim (js ''   '') = []
   \<and> onSpeechResult faulty_host (js ''   '') True
       (initial_app\<lparr>interimText := js ''fev'', isTranslating := True\<rparr>)
     = (initial_app\<lparr>interimText := js ''fev'', isTranslating := True\<rparr>, [])"
proof -
  have h: "trim (js ''   '') = []"
    by (simp add: js_def trim_def isWhiteSpace_def)
  from blank_final_ignored[OF h, of faulty_host
         "initial_app\<lparr>interimText := js ''fev'', isTranslating := True\<rparr>"] h
  show ?thesis by simp
qed

lemma trim_fiebre: "trim (js ''fiebre'') = js ''fiebre''"
  by (simp add: js_def trim_def isWhiteSpace_def)

text \<open>
  C7, on the code. The final text "fiebre" is delivered with source "es-ES" and target
  "en-US" while the translation service fails with a transport fault. The controller
  appends one entry to the empty log, whose translated text is the gateway's message
  "Error: Unable to connect to translation service.", and leaves \<open>error\<close> unset; it
  clears the translating flag and the interim text.
\<close>

theorem transport_fault_appends_entry:
  "transcripts (fst (handleTranslation faulty_host (js ''fiebre'') (swapLanguages initial_app))) =
     [\<lparr>entry_id = randomUUID faulty_host, originalText = js ''fiebre'',
       translatedText = js ''Error: Unable to connect to translation service.'',
       timestamp = now faulty_host, entry_sourceLang = js ''es-ES'',
       entry_targetLang = js ''en-US'', entry_speaker = Provider\<rparr>]
   \<and> error (fst (handleTranslation faulty_host (js ''fiebre'') (swapLanguages initial_app))) = None
   \<and> \<not> isTranslating (fst (handleTranslation faulty_host (js ''fiebre'') (swapLanguages initial_app)))
   \<and> interimText (fst (handleTranslation faulty_host (js ''fiebre'') (swapLanguages initial_app))) = []"
proof -
  have t: "truthy (trim (js ''fiebre''))"
    by (simp add: trim_fiebre) (simp add: truthy_def js_def)
  have r: "translateMedicalText (env_API_KEY faulty_host) (generateContent faulty_host)
             (js ''fiebre'') (js ''es-ES'') (js ''en-US'')
           = Inr (js ''Error: Unable to connect to translation service.'')"
    by (simp add: translateMedicalText_def faulty_host_def)
  have s: "sourceLang (swapLanguages initial_app) = js ''es-ES''"
      "targetLang (swapLanguages initial_app) = js ''en-US''"
      "speaker (swapLanguages initial_app) = Provider"
      "transcripts (swapLanguages initial_app) = []"
    by (simp_all add: swapLanguages_def initial_app_def)
  show ?thesis
    by (simp add: handleTranslation_def t r s Let_def)
qed


section \<open>Properties of the PCM fallback\<close>

lemma length_int16_elements: "length (int16_elements bs) = length bs div 2"
  by (induction bs rule: int16_elements.induct) simp_all

lemma nth_int16_elements:
  "k < length bs div 2 \<Longrightarrow> int16_elements bs ! k = le16 (bs ! (2 * k)) (bs ! (2 * k + 1))"
proof (induction bs arbitrary: k rule: int16_elements.induct)
  case (1 lo hi bs)
  then show ?case by (cases k) simp_all
qed simp_all

lemma length_sample_loop:
  "length (sample_loop i n nc ch d cd) = length cd"
  by (induction i n nc ch d cd rule: sample_loop.induct)
     (subst sample_loop.simps, simp)

lemma nth_sample_loop:
  "j < length cd \<Longrightarrow>
   sample_loop i n nc ch d cd ! j =
     (if i \<le> j \<and> j < n then int16_div_32768 d (j * nc + ch) else cd ! j)"
proof (induction i n nc ch d cd rule: sample_loop.induct)
  case (1 i n nc ch d cd)
  show ?case
  proof (cases "i < n")
    case True
    have "sample_loop i n nc ch d cd ! j =
          sample_loop (Suc i) n nc ch d (cd[i := int16_div_32768 d (i * nc + ch)]) ! j"
      using True by (subst sample_loop.simps) simp
    also have "\<dots> = (if Suc i \<le> j \<and> j < n then int16_div_32768 d (j * nc + ch)
                      else cd[i := int16_div_32768 d (i * nc + ch)] ! j)"
      using 1(1)[OF True] 1(2) by simp
    also have "\<dots> = (if i \<le> j \<and> j < n then int16_div_32768 d (j * nc + ch) else cd ! j)"
      using True 1(2) by (cases "i = j") auto
    finally show ?thesis .
  next
    case False
    then show ?thesis by (subst sample_loop.simps) auto
  qed
qed

lemma channel_loop_result:
  "length buffer = nc \<Longrightarrow>
   \<exists>out. channel_loop ch nc n d buffer = Inr out \<and> length out = nc \<and>
     (\<forall>c<nc. out ! c = (if ch \<le> c then sample_loop 0 n nc c d (buffer ! c) else buffer ! c))"
proof (induction ch nc n d buffer rule: channel_loop.induct)
  case (1 ch nc n d buffer)
  show ?case
  proof (cases "ch < nc")
    case True
    with 1(2) have inb: "ch < length buffer" by simp
    let ?b = "buffer[ch := sample_loop 0 n nc ch d (buffer ! ch)]"
    have "length ?b = nc" using 1(2) by simp
    from 1(1)[OF True inb this]
    obtain out where out: "channel_loop (Suc ch) nc n d ?b = Inr out" "length out = nc"
      "\<forall>c<nc. out ! c = (if Suc ch \<le> c then sample_loop 0 n nc c d (?b ! c) else ?b ! c)"
      by blast
    have "channel_loop ch nc n d buffer = Inr out"
      using True inb out(1) by (subst channel_loop.simps) simp
    moreover have "\<forall>c<nc. out ! c = (if ch \<le> c then sample_loop 0 n nc c d (buffer ! c) else buffer ! c)"
    proof (intro allI impI)
      fix c assume "c < nc"
      with out(3) inb show "out ! c = (if ch \<le> c then sample_loop 0 n nc c d (buffer ! c) else buffer ! c)"
        by (cases "c = ch") auto
    qed
    ultimately show ?thesis using out(2) by blast
  next
    case False
    then show ?thesis using 1(2) by (subst channel_loop.simps) simp
  qed
qed

lemma index_in_range:
  assumes "0 < nc" "c < nc" "i < m div nc"
  shows "i * nc + c < (m::nat)"
proof -
  from assms(3) have "Suc i \<le> m div nc" by simp
  then have "Suc i * nc \<le> (m div nc) * nc" by (rule mult_le_mono1)
  also have "\<dots> \<le> m" by simp
  finally have "i * nc + nc \<le> m" by simp
  with assms(2) show ?thesis by simp
qed

lemma sint16_div_bounds:
  "- 1 \<le> (of_int (sint (w :: 16 word)) :: rat) / 32768 \<and> (of_int (sint w) :: rat) / 32768 \<le> 1"
proof -
  have "- 32768 \<le> sint w" using sint_ge[of w] by simp
  then have l: "(- 32768 :: rat) \<le> of_int (sint w)" by linarith
  have "sint w < 32768" using sint_lt[of w] by simp
  then have u: "(of_int (sint w) :: rat) \<le> 32768" by linarith
  from l u show ?thesis by (simp add: field_simps)
qed

lemma byte_index_in_range: "k < m div 2 \<Longrightarrow> 2 * k + 1 < (m::nat)"
  by arith

lemma fallback_returns_iff:
  "(\<exists>buffer. decodePcmAudio_fallback supported data sampleRate numChannels = Inr buffer)
   \<longleftrightarrow> (even (length data) \<and> 0 < numChannels
        \<and> supported numChannels (length data div 2 div numChannels) sampleRate)"
proof (cases "even (length data) \<and> 0 < numChannels
        \<and> supported numChannels (length data div 2 div numChannels) sampleRate")
  case True
  let ?b = "replicate numChannels (replicate (length data div 2 div numChannels) (Sample 0))"
  have "length ?b = numChannels" by simp
  from channel_loop_result[OF this, of 0 "length data div 2 div numChannels" "int16_elements data"]
  obtain out where "channel_loop 0 numChannels (length data div 2 div numChannels)
                      (int16_elements data) ?b = Inr out" by blast
  with True show ?thesis
    by (simp add: decodePcmAudio_fallback_def Int16Array_def createBuffer_def
          length_int16_elements Let_def)
next
  case False
  then show ?thesis
    by (auto simp: decodePcmAudio_fallback_def Int16Array_def createBuffer_def
          length_int16_elements Let_def)
qed

lemma fallback_buffer:
  assumes "decodePcmAudio_fallback supported data sampleRate numChannels = Inr buffer"
    and "channel < numChannels"
  shows "length buffer = numChannels"
    and "length (buffer ! channel) = length data div 2 div numChannels"
    and "i < length data div 2 div numChannels \<Longrightarrow>
         buffer ! channel ! i = int16_div_32768 (int16_elements data) (i * numChannels + channel)"
proof -
  let ?n = "length data div 2 div numChannels"
  let ?b = "replicate numChannels (replicate ?n (Sample 0))"
  from assms(1) have ok: "even (length data)" "0 < numChannels"
    "supported numChannels ?n sampleRate"
    using fallback_returns_iff[of supported data sampleRate numChannels] by auto
  with assms(1) have cl: "channel_loop 0 numChannels ?n (int16_elements data) ?b = Inr buffer"
    by (simp add: decodePcmAudio_fallback_def Int16Array_def createBuffer_def
          length_int16_elements Let_def)
  have "length ?b = numChannels" by simp
  from channel_loop_result[OF this, of 0 ?n "int16_elements data"] cl
  have len: "length buffer = numChannels"
    and ch: "\<forall>c<numChannels. buffer ! c = sample_loop 0 ?n numChannels c (int16_elements data) (?b ! c)"
    by auto
  show "length buffer = numChannels" by (rule len)
  from ch assms(2) have eq: "buffer ! channel =
      sample_loop 0 ?n numChannels channel (int16_elements data) (replicate ?n (Sample 0))"
    by simp
  show "length (buffer ! channel) = ?n"
    by (simp add: eq length_sample_loop)
  show "buffer ! channel ! i = int16_div_32768 (int16_elements data) (i * numChannels + channel)"
    if "i < ?n"
    using that by (simp add: eq nth_sample_loop)
qed

text \<open>
  C9. When the host's decoder fails, \<open>decodePcmAudio\<close> is its PCM fallback. The
  fallback returns a buffer exactly when the byte length is even, there is at least
  one channel and the host supports the buffer. The buffer it returns has one channel
  for each of the \<open>numChannels\<close>, each of \<open>(length data div 2) div numChannels\<close>
  frames: the number of 16-bit samples divided by the channel count, rounded down.
  Frame \<open>i\<close> of channel \<open>channel\<close> is the signed 16-bit little-endian integer at
  sample index \<open>i * numChannels + channel\<close>, divided by 32768; both of its bytes lie
  inside the byte buffer, and the value lies between -1 and 1.
\<close>

theorem decodePcmAudio_fallback_samples:
  "decodePcmAudio (Inl e) supported data sampleRate numChannels =
     decodePcmAudio_fallback supported data sampleRate numChannels
   \<and> ((\<exists>buffer. decodePcmAudio_fallback supported data sampleRate numChannels = Inr buffer)
       \<longleftrightarrow> (even (length data) \<and> 0 < numChannels
            \<and> supported numChannels (length data div 2 div numChannels) sampleRate))
   \<and> (\<forall>buffer. decodePcmAudio_fallback supported data sampleRate numChannels = Inr buffer \<longrightarrow>
         length buffer = numChannels
         \<and> (\<forall>channel<numChannels.
               length (buffer ! channel) = length data div 2 div numChannels
               \<and> (\<forall>i<length data div 2 div numChannels.
                     2 * (i * numChannels + channel) + 1 < length data
                     \<and> buffer ! channel ! i =
                         Sample (of_int (sint (le16 (data ! (2 * (i * numChannels + channel)))
                                                     (data ! (2 * (i * numChannels + channel) + 1))))
                                 / 32768)
                     \<and> (\<exists>q. buffer ! channel ! i = Sample q \<and> - 1 \<le> q \<and> q \<le> 1))))"
proof (intro conjI allI impI)
  show "decodePcmAudio (Inl e) supported data sampleRate numChannels =
     decodePcmAudio_fallback supported data sampleRate numChannels"
    by (simp add: decodePcmAudio_def)
next
  show "(\<exists>buffer. decodePcmAudio_fallback supported data sampleRate numChannels = Inr buffer)
       \<longleftrightarrow> (even (length data) \<and> 0 < numChannels
            \<and> supported numChannels (length data div 2 div numChannels) sampleRate)"
    by (rule fallback_returns_iff)
next
  fix buffer
  assume r: "decodePcmAudio_fallback supported data sampleRate numChannels = Inr buffer"
  then have pos: "0 < numChannels"
    using fallback_returns_iff[of supported data sampleRate numChannels] by auto
  {
    show "length buffer = numChannels"
      by (cases numChannels) (use pos fallback_buffer(1)[OF r, of 0] in simp_all)
  next
    fix channel assume c: "channel < numChannels"
    show "length (buffer ! channel) = length data div 2 div numChannels"
      by (rule fallback_buffer(2)[OF r c])
  next
    fix channel i
    assume c: "channel < numChannels" and i: "i < length data div 2 div numChannels"
    from index_in_range[OF pos c i]
    have k: "i * numChannels + channel < length data div 2" .
    show "2 * (i * numChannels + channel) + 1 < length data"
      by (rule byte_index_in_range[OF k])
    from fallback_buffer(3)[OF r c i] k
    show v: "buffer ! channel ! i =
        Sample (of_int (sint (le16 (data ! (2 * (i * numChannels + channel)))
                                    (data ! (2 * (i * numChannels + channel) + 1)))) / 32768)"
      by (simp add: int16_div_32768_def length_int16_elements nth_int16_elements)
    show "\<exists>q. buffer ! channel ! i = Sample q \<and> - 1 \<le> q \<and> q \<le> 1"
      unfolding v using sint16_div_bounds by blast
  }
qed

text \<open>
  An instance: the four bytes 00 80 FF 7F on one channel are the samples -32768 and
  32767.
\<close>

theorem decodePcmAudio_fallback_samples_witness:
  "\<exists>buffer. decodePcmAudio_fallback webaudio_supported [0x00, 0x80, 0xFF, 0x7F] 24000 1 = Inr buffer
     \<and> length buffer = 1 \<and> length (buffer ! 0) = 2
     \<and> buffer ! 0 ! 0 = Sample (- 1)
     \<and> buffer ! 0 ! 1 = Sample (32767 / 32768)"
proof -
  note t = decodePcmAudio_fallback_samples
    [of RangeError webaudio_supported "[0x00, 0x80, 0xFF, 0x7F]" 24000 1]
  have "\<exists>buffer. decodePcmAudio_fallback webaudio_supported [0x00, 0x80, 0xFF, 0x7F] 24000 1 = Inr buffer"
    using t by (simp add: webaudio_supported_def)
  then obtain buffer where
    b: "decodePcmAudio_fallback webaudio_supported [0x00, 0x80, 0xFF, 0x7F] 24000 1 = Inr buffer"
    by blast
  with t have p: "length buffer = 1"
      "\<forall>channel<1. length (buffer ! channel) = 2
        \<and> (\<forall>i<2. buffer ! channel ! i =
               Sample (of_int (sint (le16 ([0x00, 0x80, 0xFF, 0x7F] ! (2 * (i * 1 + channel)))
                                           ([0x00, 0x80, 0xFF, 0x7F] ! (2 * (i * 1 + channel) + 1))))
                       / 32768))"
    by simp_all
  from p(2) have l: "length (buffer ! 0) = 2" by simp
  from p(2) have "buffer ! 0 ! 0 = Sample (- 1)"
    by (simp add: le16_def)
  moreover from p(2) have "buffer ! 0 ! Suc 0 = Sample (32767 / 32768)"
    by (simp add: le16_def)
  ultimately show ?thesis using b p(1) l by simp
qed

end
